theory Spec2Isabelle
  imports Main "HOL-Library.Multiset" "HOL-Library.Word" "HOL-Library.Char_ord"
    "HOL-Library.List_Lexorder"
begin

section \<open>Data model (lib/types.ts)\<close>

text \<open>
  A JavaScript \<^verbatim>\<open>number\<close> as the quiz page uses it. The result of \<^verbatim>\<open>parseInt\<close>
  is \<^verbatim>\<open>NaN\<close>, an infinity or a double with an integer value, and so is every number
  derived from it (the time limit, the sample size). \<open>Num n\<close> stands for the double
  whose value is the integer \<open>n\<close>; only integers that a double represents occur, since
  every arithmetic result goes through \<open>toDouble\<close>. Minus zero is not told apart
  from zero.
\<close>

datatype jsnum = NaN | Num int | PosInfinity | NegInfinity

text \<open>
  Rounding an integer to the nearest double, ties to the even significand (IEEE 754
  binary64, 53 significant bits): integers up to \<open>2^53 = 9007199254740992\<close> in
  magnitude are exact; a larger magnitude of \<open>53 + e\<close> bits is rounded to a multiple
  of \<open>2^e\<close>; a magnitude that rounds to \<open>2^1024\<close> or more, one of more than 1024
  bits, is an infinity.
\<close>

function bitLength :: "int \<Rightarrow> nat" where
  "bitLength n = (if n \<le> 0 then 0 else Suc (bitLength (n div 2)))"
  by pat_completeness auto
termination
  by (relation "measure nat") auto

declare bitLength.simps [simp del]

fun pow2 :: "nat \<Rightarrow> int" where
  "pow2 e = (if e = 0 then 1 else 2 * pow2 (e - 1))"

declare pow2.simps [simp del]

definition roundMagnitude :: "int \<Rightarrow> int" where
  "roundMagnitude a =
     (if a \<le> 9007199254740992 then a
      else let e = bitLength a - 53;
               q = a div pow2 e;
               r = a mod pow2 e;
               half = pow2 (e - 1)
           in (if half < r \<or> (r = half \<and> odd q) then q + 1 else q) * pow2 e)"

definition toDouble :: "int \<Rightarrow> jsnum" where
  "toDouble n =
     (let m = roundMagnitude \<bar>n\<bar>
      in if 1024 < bitLength m then (if n < 0 then NegInfinity else PosInfinity)
         else Num (if n < 0 then - m else m))"

text \<open>The comparison \<^verbatim>\<open>x <= 1\<close> and the difference \<^verbatim>\<open>x - 1\<close> on such numbers.\<close>

fun le_one :: "jsnum \<Rightarrow> bool" where
  "le_one NaN = False"
| "le_one (Num n) = (n \<le> 1)"
| "le_one PosInfinity = False"
| "le_one NegInfinity = True"

fun minus_one :: "jsnum \<Rightarrow> jsnum" where
  "minus_one NaN = NaN"
| "minus_one (Num n) = toDouble (n - 1)"
| "minus_one PosInfinity = PosInfinity"
| "minus_one NegInfinity = NegInfinity"

text \<open>
  \<^verbatim>\<open>type Question = { id?: string; question: string; options: string[];
  answer: string; explanation?: string }\<close>. The optional fields are options; the
  field \<^verbatim>\<open>id\<close> is called \<open>id_q\<close> because \<open>id\<close> is the identity function of HOL.
\<close>

record Question =
  id_q :: "string option"
  question :: string
  options :: "string list"
  answer :: string
  explanation :: "string option"

text \<open>\<^verbatim>\<open>interface QuizAnswer { questionIndex: number; selectedAnswer: string; isCorrect: boolean }\<close>\<close>

record QuizAnswer =
  questionIndex :: int
  selectedAnswer :: string
  isCorrect :: bool

section \<open>The exam session (the state of QuizPage)\<close>

text \<open>
  The six \<^verbatim>\<open>useState\<close> cells of \<^verbatim>\<open>QuizPage\<close>, together with \<^verbatim>\<open>questionCount\<close>,
  which the component reads from the URL and which is fixed for a page view.
\<close>

record Session =
  questionCount :: jsnum
  topicQuestions :: "Question list"
  answers :: "QuizAnswer list"
  isSubmitted :: bool
  timeLeft :: jsnum
  isTimeUp :: bool
  showSubmitConfirm :: bool

text \<open>
  \<^verbatim>\<open>calculateTimeLimit = (count) => count * 30\<close>: the product is rounded to a double;
  \<^verbatim>\<open>NaN * 30\<close> is \<^verbatim>\<open>NaN\<close> and an infinity stays what it is.
\<close>

fun calculateTimeLimit :: "jsnum \<Rightarrow> jsnum" where
  "calculateTimeLimit NaN = NaN"
| "calculateTimeLimit (Num cnt) = toDouble (cnt * 30)"
| "calculateTimeLimit PosInfinity = PosInfinity"
| "calculateTimeLimit NegInfinity = NegInfinity"

text \<open>The initial values of the \<^verbatim>\<open>useState\<close> cells.\<close>

definition initSession :: "jsnum \<Rightarrow> Session" where
  "initSession cnt =
     \<lparr> questionCount = cnt, topicQuestions = [], answers = [], isSubmitted = False,
       timeLeft = calculateTimeLimit cnt, isTimeUp = False, showSubmitConfirm = False \<rparr>"

text \<open>
  The three states of the specification, read off the flags: the results view is
  rendered when \<^verbatim>\<open>isSubmitted\<close> holds, the confirmation popup when
  \<^verbatim>\<open>showSubmitConfirm\<close> holds.
\<close>

datatype phase = Active | ConfirmPending | Submitted

definition phase_of :: "Session \<Rightarrow> phase" where
  "phase_of s =
     (if isSubmitted s then Submitted
      else if showSubmitConfirm s then ConfirmPending
      else Active)"

text \<open>
  One firing of the interval callback. The effect installs the interval only while
  neither \<^verbatim>\<open>isSubmitted\<close> nor \<^verbatim>\<open>isTimeUp\<close> holds, and clears it when either
  changes, so no tick is delivered otherwise. The updater is
  \<^verbatim>\<open>prev <= 1 ? (setIsTimeUp(true), setIsSubmitted(true), 0) : prev - 1\<close>,
  with the comparison and the difference of doubles.
\<close>

definition tick :: "Session \<Rightarrow> Session" where
  "tick s =
     (if isSubmitted s \<or> isTimeUp s then s
      else let prev = timeLeft s
           in if le_one prev
              then s\<lparr> isTimeUp := True, isSubmitted := True, timeLeft := Num 0 \<rparr>
              else s\<lparr> timeLeft := minus_one prev \<rparr>)"

text \<open>\<^verbatim>\<open>handleSubmitRequest\<close>, \<^verbatim>\<open>handleSubmit\<close>, \<^verbatim>\<open>handleSubmitCancel\<close>, \<^verbatim>\<open>handleRestart\<close>.\<close>

definition handleSubmitRequest :: "Session \<Rightarrow> Session" where
  "handleSubmitRequest s = s\<lparr> showSubmitConfirm := True \<rparr>"

definition handleSubmit :: "Session \<Rightarrow> Session" where
  "handleSubmit s = s\<lparr> showSubmitConfirm := False, isSubmitted := True \<rparr>"

definition handleSubmitCancel :: "Session \<Rightarrow> Session" where
  "handleSubmitCancel s = s\<lparr> showSubmitConfirm := False \<rparr>"

definition handleRestart :: "Session \<Rightarrow> Session" where
  "handleRestart s =
     s\<lparr> answers := [], isSubmitted := False,
        timeLeft := calculateTimeLimit (questionCount s), isTimeUp := False \<rparr>"

text \<open>
  \<^verbatim>\<open>topicQuestions[questionIndex]\<close>: the element, or \<^verbatim>\<open>undefined\<close> (here \<open>None\<close>)
  when the index is outside the array.
\<close>

definition questionAt :: "Question list \<Rightarrow> int \<Rightarrow> Question option" where
  "questionAt qs i = (if 0 \<le> i \<and> i < int (length qs) then Some (qs ! nat i) else None)"

text \<open>
  The updater passed to \<^verbatim>\<open>setAnswers\<close>: when an entry for the index exists, every
  entry with that index is rewritten in place; otherwise a new entry is appended.
\<close>

definition upsertAnswer :: "int \<Rightarrow> string \<Rightarrow> bool \<Rightarrow> QuizAnswer list \<Rightarrow> QuizAnswer list" where
  "upsertAnswer i sel ok prev =
     (case List.find (\<lambda>a. questionIndex a = i) prev of
        Some existing \<Rightarrow>
          map (\<lambda>a. if questionIndex a = i then a\<lparr> selectedAnswer := sel, isCorrect := ok \<rparr> else a) prev
      | None \<Rightarrow> prev @ [\<lparr> questionIndex = i, selectedAnswer = sel, isCorrect = ok \<rparr>])"

text \<open>
  \<^verbatim>\<open>handleAnswer\<close>. Reading \<^verbatim>\<open>question.answer\<close> of \<^verbatim>\<open>undefined\<close> throws a
  \<^verbatim>\<open>TypeError\<close>; that is the \<open>Inl\<close> result.
\<close>

datatype error = TypeError

definition handleAnswer :: "Session \<Rightarrow> int \<Rightarrow> string \<Rightarrow> error + Session" where
  "handleAnswer s i sel =
     (if isSubmitted s then Inr s
      else case questionAt (topicQuestions s) i of
             None \<Rightarrow> Inl TypeError
           | Some q \<Rightarrow> Inr (s\<lparr> answers := upsertAnswer i sel (sel = answer q) (answers s) \<rparr>))"

section \<open>Strings of the preparer\<close>

text \<open>
  JavaScript strings are modelled as \<open>string\<close>, a character standing for a code unit
  below 256 (Basic Latin and Latin-1). \<^verbatim>\<open>trim\<close> removes white space and line
  terminators at both ends: in this range tab, line feed, vertical tab, form feed,
  carriage return, space and no-break space (U+00A0). \<^verbatim>\<open>toLowerCase\<close> maps the
  capitals of the range, \<open>A\<close>..\<open>Z\<close> and U+00C0..U+00DE without the multiplication
  sign U+00D7, to the letter 32 code units later. Code units from 256 on are not
  represented.
\<close>

definition isWhiteSpace :: "char \<Rightarrow> bool" where
  "isWhiteSpace c =
     ((9::nat) \<le> of_char c \<and> of_char c \<le> (13::nat) \<or> of_char c = (32::nat) \<or>
      of_char c = (160::nat))"

definition trim :: "string \<Rightarrow> string" where
  "trim s = rev (dropWhile isWhiteSpace (rev (dropWhile isWhiteSpace s)))"

definition isCapital :: "char \<Rightarrow> bool" where
  "isCapital c =
     ((65::nat) \<le> of_char c \<and> of_char c \<le> (90::nat) \<or>
      (192::nat) \<le> of_char c \<and> of_char c \<le> (222::nat) \<and> of_char c \<noteq> (215::nat))"

definition lowerChar :: "char \<Rightarrow> char" where
  "lowerChar c = (if isCapital c then char_of (of_char c + (32::nat)) else c)"

definition toLowerCase :: "string \<Rightarrow> string" where
  "toLowerCase s = map lowerChar s"

text \<open>
  \<^verbatim>\<open>Array.prototype.join(sep)\<close>, and \<^verbatim>\<open>sort()\<close> with no comparator, which orders
  strings by their code units, a proper prefix first: the lexicographic order of
  \<open>string\<close> over the order of \<open>char\<close> by code.
\<close>

fun join :: "string \<Rightarrow> string list \<Rightarrow> string" where
  "join sep [] = []"
| "join sep [x] = x"
| "join sep (x # y # ys) = x @ sep @ join sep (y # ys)"

definition questionKey :: "Question \<Rightarrow> string" where
  "questionKey q =
     toLowerCase (trim (question q)) @ ''|'' @
     join ''|'' (sort (map (\<lambda>opt. toLowerCase (trim opt)) (options q)))"

text \<open>
  The decimal digits of a non-negative integer, as a template literal prints it.
\<close>

definition digitChar :: "nat \<Rightarrow> char" where
  "digitChar d = char_of (48 + d)"

fun dec :: "nat \<Rightarrow> string" where
  "dec n = (if n < 10 then [digitChar n] else dec (n div 10) @ [digitChar (n mod 10)])"

declare dec.simps [simp del]

section \<open>The environment of a load\<close>

text \<open>
  What a call reads from outside: for the iteration of \<^verbatim>\<open>forEach\<close> with index \<open>i\<close>,
  \<open>now i\<close> is the value of \<^verbatim>\<open>Date.now()\<close> and \<open>randomSuffix i\<close> the value of
  \<^verbatim>\<open>Math.random().toString(36).substr(2, 9)\<close>; \<open>random\<close> is the source of
  \<^verbatim>\<open>getRandomInt\<close>.

  \<^verbatim>\<open>getRandomInt(max)\<close> is called once for each \<^verbatim>\<open>max\<close> in one shuffle, so its
  results are indexed by that argument, written \<open>mx\<close>. With \<^verbatim>\<open>window.crypto\<close> present, \<open>Crypto w\<close>, the
  call returns \<^verbatim>\<open>cryptoArray[0] % max\<close> for the 32-bit value \<open>w mx\<close>; otherwise,
  \<open>MathRandom f\<close>, it returns \<open>f mx\<close>, the value of the floating-point expression
  \<^verbatim>\<open>Math.floor(Math.random() * max)\<close>, which is taken as given.
\<close>

datatype random_source = Crypto "nat \<Rightarrow> 32 word" | MathRandom "nat \<Rightarrow> nat"

record environment =
  now :: "nat \<Rightarrow> nat"
  randomSuffix :: "nat \<Rightarrow> string"
  random :: random_source

fun getRandomInt :: "random_source \<Rightarrow> nat \<Rightarrow> nat" where
  "getRandomInt (Crypto w) mx = unat (w mx) mod mx"
| "getRandomInt (MathRandom f) mx = f mx"

text \<open>The source returns indices in range: \<open>0 \<le> getRandomInt mx < mx\<close>.\<close>

definition in_range :: "random_source \<Rightarrow> bool" where
  "in_range src = (\<forall>mx. 0 < mx \<longrightarrow> getRandomInt src mx < mx)"

section \<open>Deduplication (removeDuplicateQuestions)\<close>

text \<open>The identifier generated for the question at \<open>index\<close>.\<close>

definition generateId :: "environment \<Rightarrow> nat \<Rightarrow> string" where
  "generateId env index =
     ''q_'' @ dec (now env index) @ ''_'' @ dec index @ ''_'' @ randomSuffix env index"

text \<open>
  \<^verbatim>\<open>question.id || generated\<close>: an absent or empty \<^verbatim>\<open>id\<close> is falsy and is
  replaced; any other is kept.
\<close>

definition assignId :: "environment \<Rightarrow> nat \<Rightarrow> Question \<Rightarrow> string" where
  "assignId env index q =
     (case id_q q of
        None \<Rightarrow> generateId env index
      | Some s \<Rightarrow> if s = [] then generateId env index else s)"

text \<open>
  The \<^verbatim>\<open>forEach\<close> loop, with its index, the set \<^verbatim>\<open>seen\<close> and the array
  \<^verbatim>\<open>uniqueQuestions\<close> as accumulators.
\<close>

fun removeDuplicates_loop ::
  "environment \<Rightarrow> nat \<Rightarrow> string set \<Rightarrow> Question list \<Rightarrow> Question list \<Rightarrow> Question list" where
  "removeDuplicates_loop env index seen uniqueQuestions [] = uniqueQuestions"
| "removeDuplicates_loop env index seen uniqueQuestions (q # qs) =
     (if questionKey q \<notin> seen
      then removeDuplicates_loop env (Suc index) (insert (questionKey q) seen)
             (uniqueQuestions @ [q\<lparr> id_q := Some (assignId env index q) \<rparr>]) qs
      else removeDuplicates_loop env (Suc index) seen uniqueQuestions qs)"

definition removeDuplicateQuestions :: "environment \<Rightarrow> Question list \<Rightarrow> Question list" where
  "removeDuplicateQuestions env questions = removeDuplicates_loop env 0 {} [] questions"





section \<open>Shuffle (secureShuffleArray)\<close>

text \<open>
  The loop \<^verbatim>\<open>for (i = length - 1; i > 0; i--)\<close> on the copy of the array, with the
  swap \<^verbatim>\<open>[a[i], a[j]] = [a[j], a[i]]\<close>, which reads both elements before it writes.
  An index \<open>j\<close> outside the array would make the swap store \<^verbatim>\<open>undefined\<close> at \<open>i\<close>
  and grow the array, which is no array of questions any more: that is the result
  \<open>None\<close>.
\<close>

fun shuffle_loop :: "random_source \<Rightarrow> nat \<Rightarrow> 'a list \<Rightarrow> 'a list option" where
  "shuffle_loop src 0 shuffled = Some shuffled"
| "shuffle_loop src (Suc n) shuffled =
     (let i = Suc n; j = getRandomInt src (i + 1)
      in if j < length shuffled
         then shuffle_loop src n (shuffled[i := shuffled ! j, j := shuffled ! i])
         else None)"

definition secureShuffleArray :: "random_source \<Rightarrow> 'a list \<Rightarrow> 'a list option" where
  "secureShuffleArray src array = shuffle_loop src (length array - 1) array"

section \<open>Loading the questions (loadQuestions)\<close>

text \<open>
  \<^verbatim>\<open>Math.min(questionCount, length)\<close> and \<^verbatim>\<open>slice(0, end)\<close>: an end of \<^verbatim>\<open>NaN\<close>
  counts as 0, a negative end counts from the end of the array, an infinite end is
  clamped to the array.
\<close>

fun math_min :: "jsnum \<Rightarrow> int \<Rightarrow> jsnum" where
  "math_min NaN n = NaN"
| "math_min (Num c) n = Num (min c n)"
| "math_min PosInfinity n = Num n"
| "math_min NegInfinity n = NegInfinity"

fun slice0 :: "'a list \<Rightarrow> jsnum \<Rightarrow> 'a list" where
  "slice0 xs NaN = []"
| "slice0 xs (Num e) =
     (if e < 0 then take (nat (max (int (length xs) + e) 0)) xs
      else take (nat (min e (int (length xs)))) xs)"
| "slice0 xs PosInfinity = xs"
| "slice0 xs NegInfinity = []"

definition sampleQuestions :: "jsnum \<Rightarrow> 'a list \<Rightarrow> 'a list" where
  "sampleQuestions cnt shuffledQuestions =
     (let availableQuestions = math_min cnt (int (length shuffledQuestions))
      in slice0 shuffledQuestions availableQuestions)"

text \<open>
  \<^verbatim>\<open>self.findIndex(p)\<close> and the final filter
  \<^verbatim>\<open>filter((question, index, self) => index === self.findIndex(q => q.id === question.id))\<close>.
\<close>

fun findIndex_from :: "nat \<Rightarrow> ('a \<Rightarrow> bool) \<Rightarrow> 'a list \<Rightarrow> nat option" where
  "findIndex_from k p [] = None"
| "findIndex_from k p (x # xs) = (if p x then Some k else findIndex_from (Suc k) p xs)"

definition findIndex :: "('a \<Rightarrow> bool) \<Rightarrow> 'a list \<Rightarrow> nat option" where
  "findIndex p xs = findIndex_from 0 p xs"

definition uniqueById :: "Question list \<Rightarrow> Question list" where
  "uniqueById quizQuestions =
     map snd (filter (\<lambda>(index, question).
                        Some index = findIndex (\<lambda>q. id_q q = id_q question) quizQuestions)
                (enumerate 0 quizQuestions))"

text \<open>
  The outcome of \<^verbatim>\<open>fetch\<close> and \<^verbatim>\<open>response.json()\<close>: the request is rejected
  (transport failure), or a response arrives with its \<^verbatim>\<open>ok\<close> flag and a body that
  parses to a question array (\<open>Some\<close>) or does not (\<open>None\<close>, \<^verbatim>\<open>json()\<close> rejects).
\<close>

datatype fetch_outcome = FetchRejected | FetchResponse bool "Question list option"

definition setTopicQuestions :: "Question list \<Rightarrow> Session \<Rightarrow> Session" where
  "setTopicQuestions qs s = s\<lparr> topicQuestions := qs \<rparr>"

text \<open>
  \<^verbatim>\<open>loadQuestions\<close>: every exception thrown in the guarded block ends in the \<^verbatim>\<open>catch\<close> branch,
  which sets the empty array. On success the state is set twice, first to
  \<^verbatim>\<open>finalQuestions\<close>, then to \<^verbatim>\<open>quizQuestions\<close>. The result is \<open>None\<close> only when
  the shuffle is (see \<open>shuffle_loop\<close>). The console output is not modelled.
\<close>

definition loadQuestions :: "environment \<Rightarrow> fetch_outcome \<Rightarrow> Session \<Rightarrow> Session option" where
  "loadQuestions env outcome s =
     (case outcome of
        FetchRejected \<Rightarrow> Some (setTopicQuestions [] s)
      | FetchResponse ok body \<Rightarrow>
          (if \<not> ok then Some (setTopicQuestions [] s)
           else (case body of
                   None \<Rightarrow> Some (setTopicQuestions [] s)
                 | Some q \<Rightarrow>
                     (let uniqueQuestions = removeDuplicateQuestions env q
                      in (case secureShuffleArray (random env) uniqueQuestions of
                            None \<Rightarrow> None
                          | Some shuffledQuestions \<Rightarrow>
                              (let quizQuestions =
                                     sampleQuestions (questionCount s) shuffledQuestions;
                                   finalQuestions = uniqueById quizQuestions
                               in Some (setTopicQuestions quizQuestions
                                          (setTopicQuestions finalQuestions s))))))))"

section \<open>The requested count (parseInt)\<close>

text \<open>
  \<^verbatim>\<open>parseInt(string, 10)\<close>: leading white space is skipped, one sign is read, then
  the longest run of decimal digits; with no digit the result is \<^verbatim>\<open>NaN\<close>,
  otherwise the double nearest to the signed integer that the digits denote. (The
  standard lets an implementation replace the digits after the 20th significant one
  by zeros; the exact integer is rounded here.)
\<close>

definition isDigit :: "char \<Rightarrow> bool" where
  "isDigit c = ((48::nat) \<le> of_char c \<and> of_char c \<le> (57::nat))"

definition digitsValue :: "string \<Rightarrow> int" where
  "digitsValue z = foldl (\<lambda>acc c. 10 * acc + (of_char c - 48)) 0 z"

definition parseInt10 :: "string \<Rightarrow> jsnum" where
  "parseInt10 inputString =
     (let S = dropWhile isWhiteSpace inputString;
          sign = (if S \<noteq> [] \<and> hd S = CHR ''-'' then - 1 else 1 :: int);
          S' = (if S \<noteq> [] \<and> (hd S = CHR ''+'' \<or> hd S = CHR ''-'') then tl S else S);
          Z = takeWhile isDigit S'
      in if Z = [] then NaN else toDouble (sign * digitsValue Z))"

text \<open>
  \<^verbatim>\<open>parseInt(searchParams.get('count') || '20', 10)\<close>: \<^verbatim>\<open>get\<close> returns \<^verbatim>\<open>null\<close>
  (here \<open>None\<close>) for an absent parameter; \<^verbatim>\<open>null\<close> and the empty string are falsy.
\<close>

definition requestedCount :: "string option \<Rightarrow> jsnum" where
  "requestedCount param =
     parseInt10 (case param of None \<Rightarrow> ''20'' | Some v \<Rightarrow> if v = [] then ''20'' else v)"

text \<open>Fixtures for the concrete runs below.\<close>

definition demoQuestion :: "string \<Rightarrow> string \<Rightarrow> Question" where
  "demoQuestion i text =
     \<lparr> id_q = (if i = [] then None else Some i), question = text, options = [''B'', ''a''],
       answer = ''a'', explanation = None \<rparr>"

definition demoEnvironment :: environment where
  "demoEnvironment = \<lparr> now = (\<lambda>i. 1700), randomSuffix = (\<lambda>i. ''k3x''), random = Crypto (\<lambda>m. 0) \<rparr>"

definition demoSession :: Session where
  "demoSession =
     (initSession (Num 1))
       \<lparr> topicQuestions := [demoQuestion ''a'' ''Q1''],
         answers := [\<lparr> questionIndex = 0, selectedAnswer = ''A'', isCorrect = False \<rparr>] \<rparr>"

section \<open>Numbers\<close>

lemma bitLength_le: "n < 2 ^ k \<Longrightarrow> bitLength n \<le> k"
proof (induction k arbitrary: n)
  case 0
  then show ?case by (subst bitLength.simps) simp
next
  case (Suc k)
  show ?case
  proof (cases "n \<le> 0")
    case True
    then show ?thesis by (subst bitLength.simps) simp
  next
    case False
    from Suc.prems have "n div 2 < 2 ^ k" by simp
    then have "bitLength (n div 2) \<le> k" by (rule Suc.IH)
    with False show ?thesis by (subst bitLength.simps) simp
  qed
qed

lemma toDouble_safe: "\<bar>n\<bar> \<le> 2 ^ 53 \<Longrightarrow> toDouble n = Num n"
proof -
  assume safe: "\<bar>n\<bar> \<le> 2 ^ 53"
  then have r: "roundMagnitude \<bar>n\<bar> = \<bar>n\<bar>" by (simp add: roundMagnitude_def)
  from safe have "\<bar>n\<bar> < 2 ^ 54" by simp
  then have "bitLength \<bar>n\<bar> \<le> 54" by (rule bitLength_le)
  then have "\<not> 1024 < bitLength \<bar>n\<bar>" by simp
  then show ?thesis by (auto simp: toDouble_def r Let_def)
qed

section \<open>Timer\<close>

lemma tick_running_step:
  "\<not> isSubmitted s \<Longrightarrow> \<not> isTimeUp s \<Longrightarrow> timeLeft s = Num t \<Longrightarrow> 1 < t \<Longrightarrow> t \<le> 2 ^ 53 \<Longrightarrow>
     tick s = s\<lparr> timeLeft := Num (t - 1) \<rparr>"
  by (simp add: tick_def toDouble_safe)

lemma tick_running_last:
  "\<not> isSubmitted s \<Longrightarrow> \<not> isTimeUp s \<Longrightarrow> timeLeft s = Num t \<Longrightarrow> t \<le> 1 \<Longrightarrow>
     tick s = s\<lparr> isTimeUp := True, isSubmitted := True, timeLeft := Num 0 \<rparr>"
  by (simp add: tick_def)

lemma tick_stopped: "isSubmitted s \<Longrightarrow> tick s = s"
  by (simp add: tick_def)

lemma ticks_stopped: "isSubmitted s \<Longrightarrow> (tick ^^ n) s = s"
  by (induction n) (simp_all add: tick_stopped)

lemma ticks_before_end:
  "\<not> isSubmitted s \<Longrightarrow> \<not> isTimeUp s \<Longrightarrow> timeLeft s = Num t \<Longrightarrow> t \<le> 2 ^ 53 \<Longrightarrow> int n < t \<Longrightarrow>
     (tick ^^ n) s = s\<lparr> timeLeft := Num (t - int n) \<rparr>"
proof (induction n)
  case 0
  then show ?case by simp
next
  case (Suc n)
  let ?s' = "s\<lparr> timeLeft := Num (t - int n) \<rparr>"
  from Suc have prev: "(tick ^^ n) s = ?s'" by simp
  from Suc.prems have "tick ?s' = ?s'\<lparr> timeLeft := Num (t - int n - 1) \<rparr>"
    by (intro tick_running_step) simp_all
  with prev show ?case by (simp add: algebra_simps)
qed

lemma ticks_at_end:
  assumes "\<not> isSubmitted s" "\<not> isTimeUp s" "timeLeft s = Num t" "t \<le> 2 ^ 53"
    "t \<le> int n" "0 < n"
  shows "(tick ^^ n) s = s\<lparr> isTimeUp := True, isSubmitted := True, timeLeft := Num 0 \<rparr>"
proof -
  define k where "k = (if t \<le> 1 then 0 else nat (t - 1))"
  have k_le: "k < n"
    using assms by (auto simp: k_def)
  let ?end = "s\<lparr> isTimeUp := True, isSubmitted := True, timeLeft := Num 0 \<rparr>"
  have upto: "(tick ^^ k) s = s\<lparr> timeLeft := Num (t - int k) \<rparr>"
  proof (cases "t \<le> 1")
    case True
    then show ?thesis using assms by (simp add: k_def)
  next
    case False
    then show ?thesis using assms by (intro ticks_before_end) (simp_all add: k_def)
  qed
  have one: "(tick ^^ Suc k) s = ?end"
  proof -
    have "tick (s\<lparr> timeLeft := Num (t - int k) \<rparr>) =
            s\<lparr> timeLeft := Num (t - int k) \<rparr>\<lparr> isTimeUp := True, isSubmitted := True, timeLeft := Num 0 \<rparr>"
      using assms by (intro tick_running_last) (auto simp: k_def)
    with upto show ?thesis by simp
  qed
  obtain m where n: "n = m + Suc k"
    using k_le by (metis Suc_leI add.commute le_Suc_ex)
  have "(tick ^^ n) s = (tick ^^ m) ((tick ^^ Suc k) s)"
    unfolding n by (simp only: funpow_add o_apply)
  also have "\<dots> = ?end"
    unfolding one by (rule ticks_stopped) simp
  finally show ?thesis .
qed

text \<open>
  Claim C2 as the code has it. From a session whose timer is running (not submitted,
  time-up flag clear, \<open>Active\<close> or \<open>ConfirmPending\<close>) with a budget \<open>T\<close> of at most
  \<open>2^53\<close>, the range in which the difference \<^verbatim>\<open>prev - 1\<close> of doubles is exact:
  \<open>N < T\<close> ticks leave \<open>T - N\<close> units and change nothing else, so an \<open>Active\<close>
  session stays \<open>Active\<close>; \<open>N \<ge> T\<close> ticks, at least one, leave the counter at zero
  with the time-up flag set and the session \<open>Submitted\<close>.
\<close>

theorem tick_countdown:
  assumes "\<not> isSubmitted s" and "\<not> isTimeUp s" and "timeLeft s = Num T" and "T \<le> 2 ^ 53"
  shows "(int N < T \<longrightarrow>
            timeLeft ((tick ^^ N) s) = Num (T - int N) \<and>
            \<not> isTimeUp ((tick ^^ N) s) \<and>
            phase_of ((tick ^^ N) s) = phase_of s) \<and>
         (T \<le> int N \<and> 0 < N \<longrightarrow>
            timeLeft ((tick ^^ N) s) = Num 0 \<and>
            isTimeUp ((tick ^^ N) s) \<and>
            phase_of ((tick ^^ N) s) = Submitted)"
proof (intro conjI impI)
  assume lt: "int N < T"
  have run: "(tick ^^ N) s = s\<lparr> timeLeft := Num (T - int N) \<rparr>"
    using assms lt by (rule ticks_before_end)
  show "timeLeft ((tick ^^ N) s) = Num (T - int N)" by (simp add: run)
  show "\<not> isTimeUp ((tick ^^ N) s)" using assms by (simp add: run)
  show "phase_of ((tick ^^ N) s) = phase_of s" by (simp add: run phase_of_def)
next
  assume ge: "T \<le> int N \<and> 0 < N"
  have fin: "(tick ^^ N) s = s\<lparr> isTimeUp := True, isSubmitted := True, timeLeft := Num 0 \<rparr>"
  proof (rule ticks_at_end [OF assms])
    show "T \<le> int N" using ge by simp
    show "0 < N" using ge by simp
  qed
  show "timeLeft ((tick ^^ N) s) = Num 0" by (simp add: fin)
  show "isTimeUp ((tick ^^ N) s)" by (simp add: fin)
  show "phase_of ((tick ^^ N) s) = Submitted" by (simp add: fin phase_of_def)
qed

theorem tick_countdown_witness:
  "timeLeft ((tick ^^ 29) (initSession (Num 1))) = Num 1 \<and>
   phase_of ((tick ^^ 29) (initSession (Num 1))) = Active \<and>
   phase_of (handleSubmitRequest (initSession (Num 1))) = ConfirmPending \<and>
   timeLeft ((tick ^^ 30) (handleSubmitRequest (initSession (Num 1)))) = Num 0 \<and>
   isTimeUp ((tick ^^ 30) (handleSubmitRequest (initSession (Num 1)))) \<and>
   phase_of ((tick ^^ 30) (handleSubmitRequest (initSession (Num 1)))) = Submitted"
proof -
  have a: "\<not> isSubmitted (initSession (Num 1))" "\<not> isTimeUp (initSession (Num 1))"
    "timeLeft (initSession (Num 1)) = Num 30" "(30::int) \<le> 2 ^ 53"
    by (simp_all add: initSession_def toDouble_safe)
  have b: "\<not> isSubmitted (handleSubmitRequest (initSession (Num 1)))"
    "\<not> isTimeUp (handleSubmitRequest (initSession (Num 1)))"
    "timeLeft (handleSubmitRequest (initSession (Num 1))) = Num 30" "(30::int) \<le> 2 ^ 53"
    by (simp_all add: initSession_def handleSubmitRequest_def toDouble_safe)
  have c: "phase_of (initSession (Num 1)) = Active"
    "phase_of (handleSubmitRequest (initSession (Num 1))) = ConfirmPending"
    by (simp_all add: initSession_def handleSubmitRequest_def phase_of_def)
  show ?thesis
    using tick_countdown [OF a, of 29] tick_countdown [OF b, of 30] c by simp
qed

text \<open>
  Claim C2 as stated fails at both ends of the range. With \<^verbatim>\<open>?count=0\<close> the budget
  is \<open>T = 0\<close>, and after \<open>0 \<ge> T\<close> ticks the session is \<open>Active\<close> with the time-up
  flag clear. With \<^verbatim>\<open>?count=400000000000000\<close> the budget is
  \<open>T = 12000000000000000 > 2^53\<close>; \<^verbatim>\<open>prev - 1\<close> rounds back to \<^verbatim>\<open>prev\<close>, and
  after 3 ticks the counter is still \<open>T\<close>, not \<open>T - 3\<close>.
\<close>

theorem tick_countdown_out_of_range:
  "timeLeft (initSession (Num 0)) = Num 0 \<and>
   \<not> isTimeUp ((tick ^^ 0) (initSession (Num 0))) \<and>
   phase_of ((tick ^^ 0) (initSession (Num 0))) = Active \<and>
   timeLeft (initSession (Num 400000000000000)) = Num 12000000000000000 \<and>
   timeLeft ((tick ^^ 3) (initSession (Num 400000000000000))) = Num 12000000000000000 \<and>
   phase_of ((tick ^^ 3) (initSession (Num 400000000000000))) = Active"
  by code_simp

section \<open>Restart\<close>

lemma handleRestart_fields:
  "answers (handleRestart s) = [] \<and>
   timeLeft (handleRestart s) = calculateTimeLimit (questionCount s) \<and>
   \<not> isTimeUp (handleRestart s) \<and> \<not> isSubmitted (handleRestart s) \<and>
   topicQuestions (handleRestart s) = topicQuestions s \<and>
   questionCount (handleRestart s) = questionCount s \<and>
   showSubmitConfirm (handleRestart s) = showSubmitConfirm s"
  by (simp add: handleRestart_def)

text \<open>
  Claim C3, at the input where the code departs from it. A session of one question
  (30 time units) in which submission is requested and the timer then runs out is
  \<open>Submitted\<close> with the confirmation flag still set; \<^verbatim>\<open>handleRestart\<close> does not touch
  that flag, so after the restart the flag is set and the session is \<open>ConfirmPending\<close>,
  not \<open>Active\<close>. The other parts of the claim hold there: no answers, 30 time units,
  time-up flag clear, the same questions.
\<close>

theorem handleRestart_after_timeout_in_confirm:
  "phase_of ((tick ^^ 30) (handleSubmitRequest (initSession (Num 1)))) = Submitted \<and>
   showSubmitConfirm (handleRestart ((tick ^^ 30) (handleSubmitRequest (initSession (Num 1))))) \<and>
   phase_of (handleRestart ((tick ^^ 30) (handleSubmitRequest (initSession (Num 1))))) = ConfirmPending \<and>
   answers (handleRestart ((tick ^^ 30) (handleSubmitRequest (initSession (Num 1))))) = [] \<and>
   timeLeft (handleRestart ((tick ^^ 30) (handleSubmitRequest (initSession (Num 1))))) = Num 30 \<and>
   \<not> isTimeUp (handleRestart ((tick ^^ 30) (handleSubmitRequest (initSession (Num 1)))))"
proof -
  let ?s = "handleSubmitRequest (initSession (Num 1))"
  have "(tick ^^ 30) ?s = ?s\<lparr> isTimeUp := True, isSubmitted := True, timeLeft := Num 0 \<rparr>"
    by (rule ticks_at_end [where t = 30])
       (simp_all add: initSession_def handleSubmitRequest_def toDouble_safe)
  then show ?thesis
    by (simp add: handleRestart_def phase_of_def initSession_def handleSubmitRequest_def
          toDouble_safe)
qed

section \<open>Answering\<close>

lemma upsertAnswer_found:
  "i \<in> questionIndex ` set prev \<Longrightarrow>
     upsertAnswer i sel ok prev =
       map (\<lambda>a. if questionIndex a = i then a\<lparr> selectedAnswer := sel, isCorrect := ok \<rparr> else a) prev"
  by (auto simp: upsertAnswer_def find_None_iff split: option.splits)

lemma upsertAnswer_new:
  "i \<notin> questionIndex ` set prev \<Longrightarrow>
     upsertAnswer i sel ok prev = prev @ [\<lparr> questionIndex = i, selectedAnswer = sel, isCorrect = ok \<rparr>]"
  by (auto simp: upsertAnswer_def find_Some_iff split: option.splits)

lemma upsertAnswer_indices:
  "map questionIndex (upsertAnswer i sel ok prev) =
     (if i \<in> questionIndex ` set prev then map questionIndex prev else map questionIndex prev @ [i])"
  by (simp add: upsertAnswer_found upsertAnswer_new comp_def if_distrib cong: if_cong)

lemma upsertAnswer_distinct:
  "distinct (map questionIndex prev) \<Longrightarrow> distinct (map questionIndex (upsertAnswer i sel ok prev))"
  by (simp add: upsertAnswer_indices)

lemma rewrite_absent:
  "i \<notin> questionIndex ` set prev \<Longrightarrow>
     filter (\<lambda>a. questionIndex a = i)
       (map (\<lambda>a. if questionIndex a = i then a\<lparr> selectedAnswer := sel, isCorrect := ok \<rparr> else a) prev) = []"
  by (induction prev) auto

lemma rewrite_present:
  "distinct (map questionIndex prev) \<Longrightarrow> i \<in> questionIndex ` set prev \<Longrightarrow>
     filter (\<lambda>a. questionIndex a = i)
       (map (\<lambda>a. if questionIndex a = i then a\<lparr> selectedAnswer := sel, isCorrect := ok \<rparr> else a) prev) =
     [\<lparr> questionIndex = i, selectedAnswer = sel, isCorrect = ok \<rparr>]"
proof (induction prev)
  case Nil
  then show ?case by simp
next
  case (Cons a prev)
  show ?case
  proof (cases "questionIndex a = i")
    case True
    with Cons.prems have "i \<notin> questionIndex ` set prev" by auto
    then show ?thesis using True by (cases a) (simp add: rewrite_absent)
  next
    case False
    with Cons show ?thesis by auto
  qed
qed

lemma upsertAnswer_entry:
  "distinct (map questionIndex prev) \<Longrightarrow>
     filter (\<lambda>a. questionIndex a = i) (upsertAnswer i sel ok prev) =
       [\<lparr> questionIndex = i, selectedAnswer = sel, isCorrect = ok \<rparr>]"
proof (cases "i \<in> questionIndex ` set prev")
  case True
  assume "distinct (map questionIndex prev)"
  then show ?thesis using True by (simp add: upsertAnswer_found rewrite_present)
next
  case False
  then have "filter (\<lambda>a. questionIndex a = i) prev = []"
    by (auto simp: filter_empty_conv)
  then show ?thesis using False by (simp add: upsertAnswer_new)
qed

lemma upsertAnswer_others:
  "filter (\<lambda>a. questionIndex a \<noteq> i) (upsertAnswer i sel ok prev) =
     filter (\<lambda>a. questionIndex a \<noteq> i) prev"
proof (cases "i \<in> questionIndex ` set prev")
  case True
  have "filter (\<lambda>a. questionIndex a \<noteq> i)
          (map (\<lambda>a. if questionIndex a = i then a\<lparr> selectedAnswer := sel, isCorrect := ok \<rparr> else a) prev) =
        filter (\<lambda>a. questionIndex a \<noteq> i) prev"
    by (induction prev) auto
  then show ?thesis using True by (simp add: upsertAnswer_found)
next
  case False
  then show ?thesis by (simp add: upsertAnswer_new)
qed

text \<open>
  Claim C4. On a submitted session \<^verbatim>\<open>handleAnswer\<close> changes nothing. Otherwise, for
  an index that has a question and an answer collection with at most one entry per
  index, the new collection again has at most one entry per index, its one entry for
  the answered index carries the selected option and the flag
  \<open>sel = answer q\<close> (equality of the two strings as they are), the entries of the
  other indices are the old ones, and no other part of the session changes.
\<close>

theorem handleAnswer_upsert:
  "(isSubmitted s \<longrightarrow> handleAnswer s i sel = Inr s) \<and>
   (\<not> isSubmitted s \<and> questionAt (topicQuestions s) i = Some q \<and>
      distinct (map questionIndex (answers s)) \<longrightarrow>
      (\<exists>new. handleAnswer s i sel = Inr (s\<lparr> answers := new \<rparr>) \<and>
         distinct (map questionIndex new) \<and>
         filter (\<lambda>a. questionIndex a = i) new =
           [\<lparr> questionIndex = i, selectedAnswer = sel, isCorrect = (sel = answer q) \<rparr>] \<and>
         filter (\<lambda>a. questionIndex a \<noteq> i) new =
           filter (\<lambda>a. questionIndex a \<noteq> i) (answers s)))"
proof (intro conjI impI)
  assume "isSubmitted s"
  then show "handleAnswer s i sel = Inr s" by (simp add: handleAnswer_def)
next
  assume h: "\<not> isSubmitted s \<and> questionAt (topicQuestions s) i = Some q \<and>
      distinct (map questionIndex (answers s))"
  let ?new = "upsertAnswer i sel (sel = answer q) (answers s)"
  have "handleAnswer s i sel = Inr (s\<lparr> answers := ?new \<rparr>)"
    using h by (simp add: handleAnswer_def)
  moreover have "distinct (map questionIndex ?new)"
    using h by (simp add: upsertAnswer_distinct)
  moreover have "filter (\<lambda>a. questionIndex a = i) ?new =
      [\<lparr> questionIndex = i, selectedAnswer = sel, isCorrect = (sel = answer q) \<rparr>]"
    using h by (simp add: upsertAnswer_entry)
  moreover have "filter (\<lambda>a. questionIndex a \<noteq> i) ?new =
      filter (\<lambda>a. questionIndex a \<noteq> i) (answers s)"
    by (rule upsertAnswer_others)
  ultimately show "\<exists>new. handleAnswer s i sel = Inr (s\<lparr> answers := new \<rparr>) \<and>
         distinct (map questionIndex new) \<and>
         filter (\<lambda>a. questionIndex a = i) new =
           [\<lparr> questionIndex = i, selectedAnswer = sel, isCorrect = (sel = answer q) \<rparr>] \<and>
         filter (\<lambda>a. questionIndex a \<noteq> i) new =
           filter (\<lambda>a. questionIndex a \<noteq> i) (answers s)"
    by blast
qed

theorem handleAnswer_upsert_witness:
  "\<not> isSubmitted demoSession \<and>
   questionAt (topicQuestions demoSession) 0 = Some (demoQuestion ''a'' ''Q1'') \<and>
   distinct (map questionIndex (answers demoSession)) \<and>
   answers demoSession = [\<lparr> questionIndex = 0, selectedAnswer = ''A'', isCorrect = False \<rparr>] \<and>
   handleAnswer demoSession 0 ''a'' =
     Inr (demoSession\<lparr> answers := [\<lparr> questionIndex = 0, selectedAnswer = ''a'', isCorrect = True \<rparr>] \<rparr>)"
proof -
  have h: "\<not> isSubmitted demoSession \<and>
      questionAt (topicQuestions demoSession) 0 = Some (demoQuestion ''a'' ''Q1'') \<and>
      distinct (map questionIndex (answers demoSession))"
    and a: "answers demoSession = [\<lparr> questionIndex = 0, selectedAnswer = ''A'', isCorrect = False \<rparr>]"
    and q: "answer (demoQuestion ''a'' ''Q1'') = ''a''"
    by (simp_all add: demoSession_def initSession_def questionAt_def demoQuestion_def)
  from handleAnswer_upsert [of demoSession 0 "''a''" "demoQuestion ''a'' ''Q1''"] h
  obtain new where r: "handleAnswer demoSession 0 ''a'' = Inr (demoSession\<lparr> answers := new \<rparr>)"
    and e: "filter (\<lambda>a. questionIndex a = 0) new =
        [\<lparr> questionIndex = 0, selectedAnswer = ''a'', isCorrect = True \<rparr>]"
    and o: "filter (\<lambda>a. questionIndex a \<noteq> 0) new = []"
    unfolding a q by auto
  from o have "\<forall>a\<in>set new. questionIndex a = 0" by (simp add: filter_empty_conv)
  then have "filter (\<lambda>a. questionIndex a = 0) new = new" by simp
  with e have "new = [\<lparr> questionIndex = 0, selectedAnswer = ''a'', isCorrect = True \<rparr>]" by simp
  with r h a show ?thesis by simp
qed

text \<open>
  Claim C10. \<^verbatim>\<open>handleAnswer\<close> checks no bound: on a session that is not submitted
  it throws the \<^verbatim>\<open>TypeError\<close> of reading \<^verbatim>\<open>answer\<close> of \<^verbatim>\<open>undefined\<close> exactly when
  the index is outside \<open>0 \<le> i < length topicQuestions\<close>; on a submitted session it
  returns before the read.
\<close>

theorem handleAnswer_TypeError_iff:
  "(\<not> isSubmitted s \<longrightarrow>
      (handleAnswer s i sel = Inl TypeError) =
        (\<not> (0 \<le> i \<and> i < int (length (topicQuestions s))))) \<and>
   (isSubmitted s \<longrightarrow> handleAnswer s i sel \<noteq> Inl TypeError)"
  by (simp add: handleAnswer_def questionAt_def)

theorem handleAnswer_TypeError_iff_witness:
  "\<not> isSubmitted demoSession \<and> length (topicQuestions demoSession) = 1 \<and>
   handleAnswer demoSession 1 ''a'' = Inl TypeError \<and>
   handleAnswer demoSession (- 1) ''a'' = Inl TypeError \<and>
   handleAnswer demoSession 0 ''a'' \<noteq> Inl TypeError \<and>
   isSubmitted (handleSubmit demoSession) \<and>
   handleAnswer (handleSubmit demoSession) 1 ''a'' \<noteq> Inl TypeError"
proof -
  have h: "\<not> isSubmitted demoSession" "length (topicQuestions demoSession) = 1"
    "isSubmitted (handleSubmit demoSession)"
    by (simp_all add: demoSession_def initSession_def handleSubmit_def)
  show ?thesis
    using h handleAnswer_TypeError_iff [of demoSession 1 "''a''"]
      handleAnswer_TypeError_iff [of demoSession "- 1" "''a''"]
      handleAnswer_TypeError_iff [of demoSession 0 "''a''"]
      handleAnswer_TypeError_iff [of "handleSubmit demoSession" 1 "''a''"]
    by simp
qed

section \<open>Shuffle\<close>

lemma getRandomInt_Crypto_in_range: "in_range (Crypto w)"
  by (simp add: in_range_def)

lemma shuffle_loop_mset:
  "n \<le> length xs - 1 \<Longrightarrow> shuffle_loop src n xs = Some ys \<Longrightarrow> mset ys = mset xs"
proof (induction n arbitrary: xs)
  case 0
  then show ?case by simp
next
  case (Suc n)
  let ?j = "getRandomInt src (Suc n + 1)"
  let ?xs' = "xs[Suc n := xs ! ?j, ?j := xs ! Suc n]"
  from Suc.prems have i: "Suc n < length xs" by simp
  from Suc.prems have j: "?j < length xs" and run: "shuffle_loop src n ?xs' = Some ys"
    by (simp_all add: Let_def split: if_splits)
  have "n \<le> length ?xs' - 1" using i by simp
  then have "mset ys = mset ?xs'" using run by (rule Suc.IH)
  also have "\<dots> = mset xs" using i j by (simp add: mset_swap)
  finally show ?case .
qed

lemma shuffle_loop_returns:
  "in_range src \<Longrightarrow> n \<le> length xs - 1 \<Longrightarrow> \<exists>ys. shuffle_loop src n xs = Some ys"
proof (induction n arbitrary: xs)
  case 0
  then show ?case by simp
next
  case (Suc n)
  let ?j = "getRandomInt src (Suc n + 1)"
  from Suc.prems have i: "Suc n < length xs" by simp
  from Suc.prems(1) have "?j < Suc n + 1" by (simp add: in_range_def)
  with i have j: "?j < length xs" by simp
  have "n \<le> length (xs[Suc n := xs ! ?j, ?j := xs ! Suc n]) - 1" using i by simp
  with Suc.IH [OF Suc.prems(1)] j show ?case by (simp add: Let_def)
qed

lemma secureShuffleArray_mset:
  "secureShuffleArray src array = Some shuffled \<Longrightarrow> mset shuffled = mset array"
  unfolding secureShuffleArray_def by (rule shuffle_loop_mset [OF order_refl])

lemma secureShuffleArray_length:
  "secureShuffleArray src array = Some shuffled \<Longrightarrow> length shuffled = length array"
  by (metis secureShuffleArray_mset size_mset)

text \<open>
  Claim C6. With a randomness source that returns indices in range, the shuffle of
  any array, the empty and the one-element array included, returns an array with
  the same elements as the input, equal as multisets.
\<close>

theorem secureShuffleArray_permutation:
  assumes "in_range src"
  shows "\<exists>shuffled. secureShuffleArray src array = Some shuffled \<and> mset shuffled = mset array"
proof -
  obtain ys where ys: "shuffle_loop src (length array - 1) array = Some ys"
    using shuffle_loop_returns [OF assms order_refl] by blast
  then have "secureShuffleArray src array = Some ys" by (simp add: secureShuffleArray_def)
  then show ?thesis using secureShuffleArray_mset by blast
qed

theorem secureShuffleArray_permutation_witness:
  "in_range (Crypto (\<lambda>m. 5)) \<and>
   (\<exists>shuffled. secureShuffleArray (Crypto (\<lambda>m. 5)) [1, 2, 3 :: nat] = Some shuffled \<and>
      mset shuffled = mset [1, 2, 3]) \<and>
   (\<exists>shuffled. secureShuffleArray (Crypto (\<lambda>m. 5)) [7 :: nat] = Some shuffled \<and>
      mset shuffled = mset [7]) \<and>
   (\<exists>shuffled. secureShuffleArray (Crypto (\<lambda>m. 5)) ([] :: nat list) = Some shuffled \<and>
      mset shuffled = mset [])"
proof -
  have r: "in_range (Crypto (\<lambda>m. 5))" by (simp add: in_range_def)
  show ?thesis
    using r secureShuffleArray_permutation [OF r, of "[1, 2, 3 :: nat]"]
      secureShuffleArray_permutation [OF r, of "[7 :: nat]"]
      secureShuffleArray_permutation [OF r, of "[] :: nat list"]
    by blast
qed

section \<open>Sampling\<close>

text \<open>
  Claim C7 as the code has it. For a requested count \<open>c \<ge> 0\<close>, the sample is the
  first \<open>min c uniqueCount\<close> elements of the shuffled array, where \<open>uniqueCount\<close> is
  the number of deduplicated questions that went into the shuffle: it has exactly
  that many elements, and when \<open>c\<close> exceeds \<open>uniqueCount\<close> it is the whole shuffled
  array, that is all unique questions. A negative count \<open>c\<close> reaches \<^verbatim>\<open>slice\<close> as a
  negative end and leaves out the last \<open>- c\<close> elements instead.
\<close>

theorem sampleQuestions_count:
  assumes "secureShuffleArray src uniqueQuestions = Some shuffled"
  shows "(0 \<le> c \<longrightarrow>
            sampleQuestions (Num c) shuffled =
              take (nat (min c (int (length uniqueQuestions)))) shuffled \<and>
            int (length (sampleQuestions (Num c) shuffled)) =
              min c (int (length uniqueQuestions)) \<and>
            (int (length uniqueQuestions) < c \<longrightarrow>
               sampleQuestions (Num c) shuffled = shuffled \<and>
               mset (sampleQuestions (Num c) shuffled) = mset uniqueQuestions)) \<and>
         (c < 0 \<longrightarrow>
            sampleQuestions (Num c) shuffled =
              take (length uniqueQuestions - nat (- c)) shuffled)"
proof (intro conjI impI)
  have len: "length shuffled = length uniqueQuestions"
    using assms by (rule secureShuffleArray_length)
  have ms: "mset shuffled = mset uniqueQuestions"
    using assms by (rule secureShuffleArray_mset)
  {
    assume c: "0 \<le> c"
    show eq: "sampleQuestions (Num c) shuffled =
        take (nat (min c (int (length uniqueQuestions)))) shuffled"
      using c by (simp add: sampleQuestions_def len)
    show "int (length (sampleQuestions (Num c) shuffled)) = min c (int (length uniqueQuestions))"
      using c unfolding eq by (auto simp: len min_def)
    {
      assume "int (length uniqueQuestions) < c"
      then show all: "sampleQuestions (Num c) shuffled = shuffled"
        unfolding eq by (simp add: len min_def)
      show "mset (sampleQuestions (Num c) shuffled) = mset uniqueQuestions"
        unfolding all by (rule ms)
    }
  }
  {
    assume c: "c < 0"
    then have "min c (int (length uniqueQuestions)) = c" by simp
    moreover have "nat (max (int (length uniqueQuestions) + c) 0) =
        length uniqueQuestions - nat (- c)"
      using c by simp
    ultimately show "sampleQuestions (Num c) shuffled =
        take (length uniqueQuestions - nat (- c)) shuffled"
      using c by (simp add: sampleQuestions_def len)
  }
qed

theorem sampleQuestions_count_witness:
  "secureShuffleArray (Crypto (\<lambda>m. 0)) [1, 2, 3 :: nat] = Some [2, 3, 1] \<and>
   sampleQuestions (Num 2) [2, 3, 1 :: nat] = [2, 3] \<and>
   sampleQuestions (Num 20) [2, 3, 1 :: nat] = [2, 3, 1] \<and>
   sampleQuestions (Num (- 2)) [2, 3, 1 :: nat] = [2]"
proof -
  have s: "secureShuffleArray (Crypto (\<lambda>m. 0)) [1, 2, 3 :: nat] = Some [2, 3, 1]"
    by code_simp
  show ?thesis
    using s sampleQuestions_count [OF s, of 2] sampleQuestions_count [OF s, of 20]
      sampleQuestions_count [OF s, of "- 2"]
    by simp
qed

text \<open>
  Claim C7 as stated fails for a negative count, which \<^verbatim>\<open>?count=-1\<close> supplies: of
  three unique questions the sample holds two, more than \<open>min (- 1) 3\<close>.
\<close>

theorem sampleQuestions_negative_count:
  "requestedCount (Some ''-1'') = Num (- 1) \<and>
   secureShuffleArray (Crypto (\<lambda>m. 0)) [1, 2, 3 :: nat] = Some [2, 3, 1] \<and>
   sampleQuestions (Num (- 1)) [2, 3, 1 :: nat] = [2, 3] \<and>
   \<not> int (length (sampleQuestions (Num (- 1)) [2, 3, 1 :: nat])) \<le> min (- 1) 3"
proof -
  have a: "requestedCount (Some ''-1'') = Num (- 1)" by code_simp
  have b: "secureShuffleArray (Crypto (\<lambda>m. 0)) [1, 2, 3 :: nat] = Some [2, 3, 1]" by code_simp
  have c: "sampleQuestions (Num (- 1)) [2, 3, 1 :: nat] = [2, 3]" by code_simp
  show ?thesis unfolding a b c by simp
qed

section \<open>Loading\<close>

text \<open>
  Claim C9. When the fetch is rejected, when the response is not \<^verbatim>\<open>ok\<close>, and when
  the body does not parse, \<^verbatim>\<open>loadQuestions\<close> returns normally with the question
  set of the session empty and the rest of the session as it was; the outcome of the
  one fetch decides, there is no second request.
\<close>

theorem loadQuestions_fetch_failure:
  "loadQuestions env FetchRejected s = Some (s\<lparr> topicQuestions := [] \<rparr>) \<and>
   loadQuestions env (FetchResponse False body) s = Some (s\<lparr> topicQuestions := [] \<rparr>) \<and>
   loadQuestions env (FetchResponse True None) s = Some (s\<lparr> topicQuestions := [] \<rparr>)"
  by (simp add: loadQuestions_def setTopicQuestions_def)

lemma uniqueById_distinct: "distinct (map id_q (uniqueById quizQuestions))"
proof -
  let ?keep = "\<lambda>(index, question).
      Some index = findIndex (\<lambda>q. id_q q = id_q question) quizQuestions"
  let ?kept = "filter ?keep (enumerate 0 quizQuestions)"
  have "distinct (map fst (enumerate 0 quizQuestions))" by simp
  then have d: "distinct ?kept" by (simp add: distinct_map)
  have "inj_on (id_q \<circ> snd) (set ?kept)"
  proof (rule inj_onI)
    fix a b assume a: "a \<in> set ?kept" and b: "b \<in> set ?kept"
      and e: "(id_q \<circ> snd) a = (id_q \<circ> snd) b"
    obtain i q where [simp]: "a = (i, q)" by (cases a)
    obtain j q' where [simp]: "b = (j, q')" by (cases b)
    from a b e have "Some i = Some j" by simp
    moreover from a b have "q = quizQuestions ! i" "q' = quizQuestions ! j"
      by (auto simp: in_set_enumerate_eq)
    ultimately show "a = b" by simp
  qed
  with d have "distinct (map (id_q \<circ> snd) ?kept)" by (simp add: distinct_map)
  then show ?thesis by (simp add: uniqueById_def)
qed

text \<open>
  Claim C1, at an input where the code departs from it. The fetched file holds two
  different questions with the same \<^verbatim>\<open>id\<close>; 20 questions are requested. Both
  questions survive the deduplication by content, the filtered list
  \<^verbatim>\<open>finalQuestions\<close> holds one of them, and the session ends with the unfiltered
  \<^verbatim>\<open>quizQuestions\<close>: two questions with equal \<^verbatim>\<open>id\<close>.
\<close>

theorem loadQuestions_installs_unfiltered:
  "map_option topicQuestions
     (loadQuestions demoEnvironment
        (FetchResponse True (Some [demoQuestion ''a'' ''Q1'', demoQuestion ''a'' ''Q2'']))
        (initSession (Num 20))) =
     Some [demoQuestion ''a'' ''Q2'', demoQuestion ''a'' ''Q1''] \<and>
   map id_q [demoQuestion ''a'' ''Q2'', demoQuestion ''a'' ''Q1''] = [Some ''a'', Some ''a''] \<and>
   uniqueById [demoQuestion ''a'' ''Q2'', demoQuestion ''a'' ''Q1''] = [demoQuestion ''a'' ''Q2'']"
  by code_simp

section \<open>The requested count\<close>










section \<open>Deduplication\<close>

subsection \<open>Generated identifiers\<close>














subsection \<open>First occurrences\<close>






subsection \<open>The loop keeps the first occurrences\<close>




subsection \<open>Identifiers of the output\<close>








end
